theory Spec2Isabelle
  imports Main
begin

section \<open>Shared data: strings, optional payload fields, wire messages\<close>

text \<open>
  A JavaScript string is a sequence of UTF-16 code units; it is modelled as the list of
  its code units. Protocol keywords are ASCII and are written with \<open>lit\<close>.
\<close>

type_synonym jsstring = "nat list"

definition lit :: "string \<Rightarrow> jsstring" where
  "lit s = map of_char s"

text \<open>
  A field of a decoded JSON payload is absent (\<open>undefined\<close>), \<open>null\<close>, or holds a value.
\<close>

datatype 'a field = Absent | Null | Val 'a

text \<open>
  The body of a \<open>human_intervention_response\<close>: \<open>request_id\<close> and \<open>task_id\<close> followed by
  the spread of the handler's object. A key the handler does not write is \<open>None\<close>.
\<close>

record response =
  request_id :: jsstring
  task_id :: jsstring
  success :: bool
  response_type :: jsstring
  selected_option :: "jsstring option"
  input_value :: "jsstring option"
  error :: "jsstring option"

text \<open>The client-to-server envelopes \<open>{type, data}\<close> that the sources build.\<close>

datatype ws_message = Subscribe | Ping | HumanInterventionResponse response

section \<open>The connection store (web/src/stores/websocket.js)\<close>

datatype readyState = CONNECTING | OPEN | CLOSING | CLOSED

text \<open>
  The store's refs and the part of the browser they act on. A socket is named by its
  index in \<open>sockets\<close>, which holds the \<open>readyState\<close> of every socket created so far;
  \<open>ws\<close> is the handle held in \<open>ws.value\<close> (\<open>None\<close> for \<open>null\<close>). \<open>intervals\<close> are the
  active \<open>setInterval\<close> timers, \<open>scheduled\<close> logs the delay of every
  \<open>setTimeout(() => connect(), delay)\<close> issued so far, \<open>pending\<close> counts those that have
  not fired yet, and \<open>wire\<close> logs every frame passed to a socket's \<open>send\<close>.
\<close>

record store =
  ws :: "nat option"
  connected :: bool
  reconnectAttempts :: nat
  reconnectDelay :: nat
  heartbeatTimer :: "nat option"
  sockets :: "readyState list"
  intervals :: "nat list"
  next_timer :: nat
  scheduled :: "nat list"
  pending :: nat
  wire :: "(nat \<times> ws_message) list"

definition maxReconnectAttempts :: nat where
  "maxReconnectAttempts = 10"

definition store_init :: store where
  "store_init = \<lparr> ws = None, connected = False, reconnectAttempts = 0,
     reconnectDelay = 1000, heartbeatTimer = None, sockets = [], intervals = [],
     next_timer = 1, scheduled = [], pending = 0, wire = [] \<rparr>"

definition ready :: "store \<Rightarrow> nat \<Rightarrow> readyState option" where
  "ready s i = (if i < length (sockets s) then Some (sockets s ! i) else None)"

text \<open>\<open>ws.value && ws.value.readyState === WebSocket.OPEN\<close>\<close>

definition ws_is_open :: "store \<Rightarrow> bool" where
  "ws_is_open s = (case ws s of None \<Rightarrow> False | Some i \<Rightarrow> ready s i = Some OPEN)"

definition send :: "ws_message \<Rightarrow> store \<Rightarrow> store" where
  "send m s =
     (case ws s of
        None \<Rightarrow> s
      | Some i \<Rightarrow> if ready s i = Some OPEN then s\<lparr> wire := wire s @ [(i, m)] \<rparr> else s)"

definition stopHeartbeat :: "store \<Rightarrow> store" where
  "stopHeartbeat s =
     (case heartbeatTimer s of
        None \<Rightarrow> s
      | Some t \<Rightarrow> s\<lparr> intervals := removeAll t (intervals s), heartbeatTimer := None \<rparr>)"

definition startHeartbeat :: "store \<Rightarrow> store" where
  "startHeartbeat s =
     (let s1 = stopHeartbeat s
      in s1\<lparr> heartbeatTimer := Some (next_timer s1),
              intervals := intervals s1 @ [next_timer s1],
              next_timer := Suc (next_timer s1) \<rparr>)"

text \<open>
  \<open>connect()\<close>. The flag \<open>ctor_ok\<close> says whether \<open>new WebSocket(wsUrl)\<close> returns; when
  it throws, the \<open>catch\<close> only logs. The four handlers are attached to the new socket.
  Of these, \<open>onmessage\<close> and \<open>onerror\<close> write none of the refs above and are left out.
\<close>

definition connect :: "bool \<Rightarrow> store \<Rightarrow> store" where
  "connect ctor_ok s =
     (if ws_is_open s then s
      else if \<not> ctor_ok then s
      else s\<lparr> ws := Some (length (sockets s)), sockets := sockets s @ [CONNECTING] \<rparr>)"

text \<open>The body of \<open>ws.value.onopen\<close>.\<close>

definition onopen :: "store \<Rightarrow> store" where
  "onopen s =
     startHeartbeat (send Subscribe
       (s\<lparr> connected := True, reconnectAttempts := 0, reconnectDelay := 1000 \<rparr>))"

text \<open>The body of \<open>ws.value.onclose\<close>.\<close>

definition onclose :: "store \<Rightarrow> store" where
  "onclose s =
     (let s1 = stopHeartbeat (s\<lparr> connected := False \<rparr>)
      in if reconnectAttempts s1 < maxReconnectAttempts
         then s1\<lparr> reconnectAttempts := Suc (reconnectAttempts s1),
                  scheduled := scheduled s1 @ [reconnectDelay s1],
                  pending := Suc (pending s1),
                  reconnectDelay := min (reconnectDelay s1 * 2) 30000 \<rparr>
         else s1)"

text \<open>
  \<open>WebSocket.close()\<close>: a socket that is connecting or open starts its closing
  handshake; its \<open>close\<close> event is delivered later, from the event loop.
\<close>

definition socket_close :: "nat \<Rightarrow> store \<Rightarrow> store" where
  "socket_close i s =
     (if ready s i = Some CONNECTING \<or> ready s i = Some OPEN
      then s\<lparr> sockets := (sockets s)[i := CLOSING] \<rparr>
      else s)"

definition disconnect :: "store \<Rightarrow> store" where
  "disconnect s =
     (let s1 = stopHeartbeat s;
          s2 = (case ws s1 of
                  None \<Rightarrow> s1
                | Some i \<Rightarrow> (socket_close i s1)\<lparr> ws := None \<rparr>)
      in s2\<lparr> connected := False \<rparr>)"

text \<open>
  What the event loop delivers to the store. \<open>SockOpen i\<close> and \<open>SockClose i\<close> are the
  \<open>open\<close> and \<open>close\<close> events of socket \<open>i\<close>: the browser sets the socket's
  \<open>readyState\<close>, then runs the handler that \<open>connect\<close> attached to it. \<open>TimerFire\<close> is a
  pending reconnect timeout running \<open>connect()\<close>; \<open>HeartbeatTick\<close> is the heartbeat
  interval's callback. \<open>CallConnect\<close> and \<open>CallDisconnect\<close> are calls by the application.
  A handler is run for whatever socket index the event names, so every sequence of
  events the browser can produce is among those considered.
\<close>

datatype store_event =
    CallConnect bool
  | CallDisconnect
  | SockOpen nat
  | SockClose nat
  | TimerFire bool
  | HeartbeatTick

fun store_step :: "store \<Rightarrow> store_event \<Rightarrow> store" where
  "store_step s (CallConnect ok) = connect ok s"
| "store_step s CallDisconnect = disconnect s"
| "store_step s (SockOpen i) = onopen (s\<lparr> sockets := (sockets s)[i := OPEN] \<rparr>)"
| "store_step s (SockClose i) = onclose (s\<lparr> sockets := (sockets s)[i := CLOSED] \<rparr>)"
| "store_step s (TimerFire ok) =
     (if 0 < pending s then connect ok (s\<lparr> pending := pending s - 1 \<rparr>) else s)"
| "store_step s HeartbeatTick =
     (if heartbeatTimer s \<noteq> None then send Ping s else s)"

definition store_run :: "store \<Rightarrow> store_event list \<Rightarrow> store" where
  "store_run = foldl store_step"

fun is_open_event :: "store_event \<Rightarrow> bool" where
  "is_open_event (SockOpen i) = True"
| "is_open_event e = False"

fun is_close_event :: "store_event \<Rightarrow> bool" where
  "is_close_event (SockClose i) = True"
| "is_close_event e = False"

definition closes :: "store_event list \<Rightarrow> nat" where
  "closes es = length (filter is_close_event es)"

section \<open>The intervention dialog (second component of web/src/components/PlanPreviewDialog.vue)\<close>

text \<open>
  JavaScript's \<open>x || d\<close> on a payload field: \<open>undefined\<close> and \<open>null\<close> are falsy, a
  number is falsy when it is \<open>0\<close>, a string when it is empty, an array never. Timeouts
  are whole seconds, so numbers are integers here.
\<close>

definition num_or :: "int field \<Rightarrow> int \<Rightarrow> int" where
  "num_or f d = (case f of Val n \<Rightarrow> if n = 0 then d else n | _ \<Rightarrow> d)"

definition str_or :: "jsstring field \<Rightarrow> jsstring \<Rightarrow> jsstring" where
  "str_or f d = (case f of Val x \<Rightarrow> if x = [] then d else x | _ \<Rightarrow> d)"

definition arr_or :: "'a list field \<Rightarrow> 'a list \<Rightarrow> 'a list" where
  "arr_or f d = (case f of Val xs \<Rightarrow> xs | _ \<Rightarrow> d)"

text \<open>
  The code units that \<open>String.prototype.trim\<close> strips: the WhiteSpace and
  LineTerminator productions of ECMAScript.
\<close>

definition js_whitespace :: "nat \<Rightarrow> bool" where
  "js_whitespace c =
     (c \<in> {0x9, 0xA, 0xB, 0xC, 0xD, 0x20, 0xA0, 0x1680, 0x2028, 0x2029, 0x202F,
            0x205F, 0x3000, 0xFEFF}
      \<or> (0x2000 \<le> c \<and> c \<le> 0x200A))"

text \<open>\<open>!str.trim()\<close>\<close>

definition trim_empty :: "jsstring \<Rightarrow> bool" where
  "trim_empty str = list_all js_whitespace str"

text \<open>The literals of the source that are not ASCII, as code units.\<close>

definition opt_confirm :: jsstring where
  "opt_confirm = [0x786E, 0x8BA4]"

definition opt_cancel :: jsstring where
  "opt_cancel = [0x53D6, 0x6D88]"

definition default_placeholder :: jsstring where
  "default_placeholder = [0x8BF7, 0x8F93, 0x5165, 0x2E, 0x2E, 0x2E]"

text \<open>The \<open>detail\<close> of a \<open>human-intervention-needed\<close> event.\<close>

record intervention_data =
  d_intervention_type :: jsstring
  d_message :: jsstring
  d_request_id :: jsstring
  d_task_id :: jsstring
  d_timeout :: "int field"
  d_options :: "jsstring list field"
  d_input_type :: "jsstring field"
  d_placeholder :: "jsstring field"

text \<open>
  The component's refs, its \<open>countdownTimer\<close> variable, and what it acts on: \<open>timers\<close>
  are the active \<open>setInterval\<close> timers, \<open>timer_seq\<close> is the next handle the browser
  hands out (handles are positive, hence truthy), and \<open>outbox\<close> logs every message
  passed to \<open>wsStore.send\<close>, in order. Whether such a message reaches the socket is
  decided by \<open>send\<close> of the connection store.
\<close>

record dialog =
  visible :: bool
  interventionType :: jsstring
  message :: jsstring
  options :: "jsstring list"
  inputType :: jsstring
  placeholder :: jsstring
  inputValue :: jsstring
  timeout :: int
  remainingTime :: int
  requestId :: jsstring
  taskId :: jsstring
  countdownTimer :: "nat option"
  timers :: "nat list"
  timer_seq :: nat
  outbox :: "ws_message list"

definition dialog_init :: dialog where
  "dialog_init = \<lparr> visible = False, interventionType = [], message = [], options = [],
     inputType = lit ''text'', placeholder = [], inputValue = [], timeout = 60,
     remainingTime = 0, requestId = [], taskId = [], countdownTimer = None,
     timers = [], timer_seq = 1, outbox = [] \<rparr>"

definition stopCountdown :: "dialog \<Rightarrow> dialog" where
  "stopCountdown s =
     (case countdownTimer s of
        None \<Rightarrow> s
      | Some t \<Rightarrow> s\<lparr> timers := removeAll t (timers s), countdownTimer := None \<rparr>)"

text \<open>
  \<open>sendResponse(response)\<close>: the arguments are the keys the handlers put in
  \<open>response\<close>; none of them overrides \<open>request_id\<close> or \<open>task_id\<close> in the spread.
\<close>

definition sendResponse ::
  "bool \<Rightarrow> jsstring \<Rightarrow> jsstring option \<Rightarrow> jsstring option \<Rightarrow> jsstring option
     \<Rightarrow> dialog \<Rightarrow> dialog" where
  "sendResponse ok rtype sel inp err s =
     s\<lparr> outbox := outbox s @
          [HumanInterventionResponse
             \<lparr> request_id = requestId s, task_id = taskId s, success = ok,
               response_type = rtype, selected_option = sel, input_value = inp,
               error = err \<rparr>] \<rparr>"

definition handleConfirm :: "jsstring \<Rightarrow> dialog \<Rightarrow> dialog" where
  "handleConfirm selectedOption s =
     (let s1 = stopCountdown s;
          s2 = sendResponse True (lit ''confirm'') (Some selectedOption) None None s1
      in s2\<lparr> visible := False \<rparr>)"

definition handleSubmit :: "dialog \<Rightarrow> dialog" where
  "handleSubmit s =
     (if trim_empty (inputValue s) then s
      else let s1 = stopCountdown s;
               s2 = sendResponse True (lit ''input'') None (Some (inputValue s1)) None s1
           in s2\<lparr> visible := False, inputValue := [] \<rparr>)"

definition handleCancel :: "dialog \<Rightarrow> dialog" where
  "handleCancel s =
     (let s1 = stopCountdown s;
          s2 = sendResponse False (interventionType s1) None None
                 (Some (lit ''User cancelled'')) s1
      in s2\<lparr> visible := False, inputValue := [] \<rparr>)"

definition handleTimeout :: "dialog \<Rightarrow> dialog" where
  "handleTimeout s =
     (let s1 = sendResponse False (interventionType s) None None (Some (lit ''Timeout'')) s
      in s1\<lparr> visible := False, inputValue := [] \<rparr>)"

text \<open>The callback that \<open>startCountdown\<close> gives to \<open>setInterval\<close>.\<close>

definition countdown_tick :: "dialog \<Rightarrow> dialog" where
  "countdown_tick s =
     (let s1 = s\<lparr> remainingTime := remainingTime s - 1 \<rparr>
      in if remainingTime s1 \<le> 0 then handleTimeout (stopCountdown s1) else s1)"

definition startCountdown :: "dialog \<Rightarrow> dialog" where
  "startCountdown s =
     (let s1 = stopCountdown s
      in s1\<lparr> countdownTimer := Some (timer_seq s1),
              timers := timers s1 @ [timer_seq s1],
              timer_seq := Suc (timer_seq s1) \<rparr>)"

definition handleInterventionRequest :: "intervention_data \<Rightarrow> dialog \<Rightarrow> dialog" where
  "handleInterventionRequest d s =
     (let s1 = s\<lparr> interventionType := d_intervention_type d,
                  message := d_message d,
                  requestId := d_request_id d,
                  taskId := d_task_id d,
                  timeout := num_or (d_timeout d) 60 \<rparr>;
          s2 = (if d_intervention_type d = lit ''confirm''
                then s1\<lparr> options := arr_or (d_options d) [opt_confirm, opt_cancel] \<rparr>
                else if d_intervention_type d = lit ''input''
                then s1\<lparr> inputType := str_or (d_input_type d) (lit ''text''),
                         placeholder := str_or (d_placeholder d) default_placeholder,
                         inputValue := [] \<rparr>
                else s1);
          s3 = s2\<lparr> visible := True, remainingTime := timeout s2 \<rparr>
      in startCountdown s3)"

text \<open>
  What reaches the component while it is mounted. \<open>Intervention d\<close> is the window
  event, which the handler takes whatever task it names. \<open>CountdownTick t\<close>
  is interval \<open>t\<close> firing, which the browser does only while \<open>t\<close> is active. The other
  events come from the template: it renders the option buttons for kind \<open>confirm\<close>,
  one per entry of \<open>options\<close>, and the text box, the cancel button and the submit
  button (or the Enter key) for kind \<open>input\<close>. No handler tests \<open>visible\<close>, and the
  rendered controls still take a click after a handler has set \<open>visible\<close> to false,
  so these events run their handlers whether the dialog is shown or not. The dialog
  has no close button and ignores Escape and clicks on the overlay.
\<close>

datatype dialog_event =
    Intervention intervention_data
  | CountdownTick nat
  | ClickOption jsstring
  | TypeInput jsstring
  | PressSubmit
  | ClickCancel

fun dialog_step :: "dialog \<Rightarrow> dialog_event \<Rightarrow> dialog" where
  "dialog_step s (Intervention d) = handleInterventionRequest d s"
| "dialog_step s (CountdownTick t) =
     (if t \<in> set (timers s) then countdown_tick s else s)"
| "dialog_step s (ClickOption x) =
     (if interventionType s = lit ''confirm'' \<and> x \<in> set (options s)
      then handleConfirm x s else s)"
| "dialog_step s (TypeInput v) =
     (if interventionType s = lit ''input'' then s\<lparr> inputValue := v \<rparr> else s)"
| "dialog_step s PressSubmit =
     (if interventionType s = lit ''input'' then handleSubmit s else s)"
| "dialog_step s ClickCancel =
     (if interventionType s = lit ''input'' then handleCancel s else s)"

definition dialog_run :: "dialog \<Rightarrow> dialog_event list \<Rightarrow> dialog" where
  "dialog_run = foldl dialog_step"

fun is_intervention :: "dialog_event \<Rightarrow> bool" where
  "is_intervention (Intervention d) = True"
| "is_intervention e = False"




section \<open>The live task preview (component TaskRealTimePreview, unnamed/part_002)\<close>

text \<open>
  A step as the server returns it, with the \<open>isNew\<close> flag that the poll callback
  writes on the step objects it has just received (\<open>None\<close>: the key is not there).
\<close>

record 'a step =
  body :: 'a
  isNew :: "bool option"

text \<open>The fields of a task that the poll callback copies.\<close>

record task =
  t_status :: jsstring
  t_result :: "jsstring field"
  t_error :: "jsstring field"
  t_important_content :: "jsstring field"
  t_todos :: "jsstring field"
  t_pending_question :: "jsstring field"

text \<open>An awaited call of \<open>taskApi\<close> either throws or returns.\<close>

datatype 'r api = Throws | Returns 'r

datatype callback = PollCb | ElapsedCb

text \<open>
  The component's refs and timer variables. \<open>pv_intervals\<close> are the active
  \<open>setInterval\<close> timers, each with the callback it runs; \<open>pv_timer_seq\<close> is the next
  handle (positive, hence truthy).
\<close>

record 'a preview =
  props_taskId :: "jsstring option"
  currentTask :: "task option"
  steps :: "'a step list"
  pollingTimer :: "nat option"
  elapsedTimer :: "nat option"
  pv_intervals :: "(nat \<times> callback) list"
  pv_timer_seq :: nat

definition preview_init :: "'a preview" where
  "preview_init = \<lparr> props_taskId = None, currentTask = None, steps = [],
     pollingTimer = None, elapsedTimer = None, pv_intervals = [], pv_timer_seq = 1 \<rparr>"

definition clearInterval :: "nat \<Rightarrow> (nat \<times> callback) list \<Rightarrow> (nat \<times> callback) list" where
  "clearInterval t xs = filter (\<lambda>p. fst p \<noteq> t) xs"

definition startElapsedTimer :: "'a preview \<Rightarrow> 'a preview" where
  "startElapsedTimer s =
     (if elapsedTimer s \<noteq> None then s
      else s\<lparr> elapsedTimer := Some (pv_timer_seq s),
              pv_intervals := pv_intervals s @ [(pv_timer_seq s, ElapsedCb)],
              pv_timer_seq := Suc (pv_timer_seq s) \<rparr>)"

definition stopElapsedTimer :: "'a preview \<Rightarrow> 'a preview" where
  "stopElapsedTimer s =
     (case elapsedTimer s of
        None \<Rightarrow> s
      | Some t \<Rightarrow> s\<lparr> pv_intervals := clearInterval t (pv_intervals s),
                     elapsedTimer := None \<rparr>)"

definition startPolling :: "'a preview \<Rightarrow> 'a preview" where
  "startPolling s =
     (if pollingTimer s \<noteq> None then s
      else s\<lparr> pollingTimer := Some (pv_timer_seq s),
              pv_intervals := pv_intervals s @ [(pv_timer_seq s, PollCb)],
              pv_timer_seq := Suc (pv_timer_seq s) \<rparr>)"

definition stopPolling :: "'a preview \<Rightarrow> 'a preview" where
  "stopPolling s =
     (case pollingTimer s of
        None \<Rightarrow> s
      | Some t \<Rightarrow> s\<lparr> pv_intervals := clearInterval t (pv_intervals s),
                     pollingTimer := None \<rparr>)"

text \<open>
  The poll callback is \<open>async\<close>: it runs in three pieces, separated by the two awaited
  requests. \<open>poll_enter\<close> is the piece before the first \<open>await\<close>; its result says
  whether the callback goes on.
\<close>

definition no_taskId :: "'a preview \<Rightarrow> bool" where
  "no_taskId s = (props_taskId s = None \<or> props_taskId s = Some [])"

definition poll_enter :: "'a preview \<Rightarrow> 'a preview" where
  "poll_enter s = (if no_taskId s then stopPolling s else s)"

text \<open>The piece between the two requests: \<open>taskApi.get\<close> has returned \<open>task\<close>.\<close>

definition poll_got_task :: "task \<Rightarrow> 'a preview \<Rightarrow> 'a preview" where
  "poll_got_task task s =
     (case currentTask s of
        None \<Rightarrow> s
      | Some c \<Rightarrow> s\<lparr> currentTask := Some (c\<lparr> t_status := t_status task,
                         t_result := t_result task,
                         t_error := t_error task,
                         t_important_content := t_important_content task,
                         t_todos := t_todos task,
                         t_pending_question := t_pending_question task \<rparr>) \<rparr>)"

text \<open>
  \<open>stepsData.steps.slice(steps.value.length)\<close> followed by the \<open>forEach\<close>: the fetched
  steps from position \<open>n\<close> on are flagged, in the fetched array itself. One second
  later a timeout writes \<open>false\<close> to the flag of the same step objects; it touches
  nothing else of a step and no list, and is left out.
\<close>

definition flag_new :: "nat \<Rightarrow> 'a step list \<Rightarrow> 'a step list" where
  "flag_new n fetched = take n fetched @ map (\<lambda>st. st\<lparr> isNew := Some True \<rparr>) (drop n fetched)"

definition task_finished :: "task \<Rightarrow> bool" where
  "task_finished task =
     (t_status task = lit ''completed'' \<or> t_status task = lit ''failed''
      \<or> t_status task = lit ''cancelled'')"

text \<open>
  The last piece: \<open>taskApi.getSteps\<close> has returned. \<open>fetched\<close> is \<open>stepsData.steps\<close>
  when that is an array and \<open>None\<close> otherwise.
\<close>

definition poll_got_steps :: "task \<Rightarrow> 'a step list option \<Rightarrow> 'a preview \<Rightarrow> 'a preview" where
  "poll_got_steps task fetched s =
     (let s1 = (case fetched of
                  None \<Rightarrow> s
                | Some fs \<Rightarrow>
                    if length fs > length (steps s)
                    then s\<lparr> steps := flag_new (length (steps s)) fs \<rparr>
                    else s)
      in if task_finished task then stopElapsedTimer (stopPolling s1) else s1)"

text \<open>One whole run of the callback with nothing else in between.\<close>

definition poll_tick ::
  "task api \<Rightarrow> 'a step list option api \<Rightarrow> 'a preview \<Rightarrow> 'a preview" where
  "poll_tick got_task got_steps s =
     (if no_taskId s then stopPolling s
      else case got_task of
             Throws \<Rightarrow> s
           | Returns task \<Rightarrow>
               (let s1 = poll_got_task task s
                in case got_steps of
                     Throws \<Rightarrow> s1
                   | Returns fetched \<Rightarrow> poll_got_steps task fetched s1))"

text \<open>
  Calls and callbacks in the order the event loop runs them. The three pieces of a
  poll callback are separate events, so other calls may fall between them, and a
  callback that was already waiting may finish after polling was stopped.
\<close>

datatype 'a preview_event =
    StartPolling
  | StopPolling
  | StartElapsedTimer
  | StopElapsedTimer
  | PollEnter
  | PollGotTask task
  | PollGotSteps task "'a step list option"

fun preview_step :: "'a preview \<Rightarrow> 'a preview_event \<Rightarrow> 'a preview" where
  "preview_step s StartPolling = startPolling s"
| "preview_step s StopPolling = stopPolling s"
| "preview_step s StartElapsedTimer = startElapsedTimer s"
| "preview_step s StopElapsedTimer = stopElapsedTimer s"
| "preview_step s PollEnter = poll_enter s"
| "preview_step s (PollGotTask task) = poll_got_task task s"
| "preview_step s (PollGotSteps task fetched) = poll_got_steps task fetched s"

definition preview_run :: "'a preview \<Rightarrow> 'a preview_event list \<Rightarrow> 'a preview" where
  "preview_run = foldl preview_step"

text \<open>The poll loops that are running: the active intervals whose callback polls.\<close>

definition poll_loops :: "'a preview \<Rightarrow> nat list" where
  "poll_loops s = map fst (filter (\<lambda>p. snd p = PollCb) (pv_intervals s))"

section \<open>Example payloads\<close>

text \<open>
  A confirmation request with the two default options and a five-second deadline, a
  second confirmation request for the same task with other options, and an input
  request that leaves timeout, input type and placeholder to the component.
\<close>

definition ex_confirm :: intervention_data where
  "ex_confirm = \<lparr> d_intervention_type = lit ''confirm'', d_message = lit ''Pay now?'',
     d_request_id = lit ''r1'', d_task_id = lit ''t1'', d_timeout = Val 5,
     d_options = Val [opt_confirm, opt_cancel], d_input_type = Absent,
     d_placeholder = Absent \<rparr>"

definition ex_confirm_again :: intervention_data where
  "ex_confirm_again = \<lparr> d_intervention_type = lit ''confirm'', d_message = lit ''Sure?'',
     d_request_id = lit ''r3'', d_task_id = lit ''t1'', d_timeout = Val 30,
     d_options = Val [lit ''Yes'', lit ''No''], d_input_type = Absent,
     d_placeholder = Absent \<rparr>"

definition ex_input :: intervention_data where
  "ex_input = \<lparr> d_intervention_type = lit ''input'', d_message = lit ''Code?'',
     d_request_id = lit ''r2'', d_task_id = lit ''t1'', d_timeout = Absent,
     d_options = Absent, d_input_type = Absent, d_placeholder = Null \<rparr>"

text \<open>
  A preview that holds one step of a running task; steps are told apart by a number.
\<close>

definition ex_step :: "nat \<Rightarrow> nat step" where
  "ex_step n = \<lparr> body = n, isNew = None \<rparr>"

definition ex_task :: task where
  "ex_task = \<lparr> t_status = lit ''running'', t_result = Null, t_error = Null,
     t_important_content = Absent, t_todos = Absent, t_pending_question = Null \<rparr>"

definition ex_preview :: "nat preview" where
  "ex_preview = \<lparr> props_taskId = Some (lit ''t1''), currentTask = Some ex_task,
     steps = [ex_step 1], pollingTimer = Some 1, elapsedTimer = None,
     pv_intervals = [(1, PollCb)], pv_timer_seq = 2 \<rparr>"

section \<open>Notions used to state and prove the properties\<close>

text \<open>
  The delays of \<open>m\<close> successive reconnects when the first one waits \<open>d\<close> milliseconds.
\<close>

definition backoff_delays :: "nat \<Rightarrow> nat \<Rightarrow> nat list" where
  "backoff_delays d m = map (\<lambda>k. min (d * 2 ^ k) 30000) [0..<m]"

text \<open>
  The dialog is \<open>awaiting\<close> an answer when it is shown and exactly its own countdown
  runs; it is \<open>settled\<close> when it is hidden and no countdown runs.
\<close>

definition awaiting :: "dialog \<Rightarrow> nat \<Rightarrow> bool" where
  "awaiting s t = (visible s \<and> countdownTimer s = Some t \<and> timers s = [t])"

definition settled :: "dialog \<Rightarrow> bool" where
  "settled s = (\<not> visible s \<and> countdownTimer s = None \<and> timers s = [])"

definition consistent :: "dialog \<Rightarrow> bool" where
  "consistent s = (settled s \<or> (\<exists>t. awaiting s t))"

text \<open>
  The number of ticks after which a countdown started at \<open>r\<close> seconds has run out:
  each tick takes one second off and the countdown ends once nothing is left.
\<close>

definition ticks_to_deadline :: "int \<Rightarrow> nat" where
  "ticks_to_deadline r = (if r \<le> 1 then 1 else nat r)"

text \<open>
  The preview's timer variables describe the browser's timers faithfully when each
  kind of loop that runs is the one its variable holds, handles are fresh and no
  handle is in use twice.
\<close>

definition elapsed_loops :: "'a preview \<Rightarrow> nat list" where
  "elapsed_loops s = map fst (filter (\<lambda>p. snd p = ElapsedCb) (pv_intervals s))"

definition tracked :: "'a preview \<Rightarrow> bool" where
  "tracked s =
     (poll_loops s = (case pollingTimer s of None \<Rightarrow> [] | Some t \<Rightarrow> [t]) \<and>
      elapsed_loops s = (case elapsedTimer s of None \<Rightarrow> [] | Some t \<Rightarrow> [t]) \<and>
      (\<forall>p \<in> set (pv_intervals s). fst p < pv_timer_seq s) \<and>
      distinct (map fst (pv_intervals s)))"

section \<open>Properties of the connection store\<close>

subsection \<open>What each operation leaves alone\<close>

lemma send_fields [simp]:
  "reconnectAttempts (send m s) = reconnectAttempts s"
  "reconnectDelay (send m s) = reconnectDelay s"
  "scheduled (send m s) = scheduled s"
  "pending (send m s) = pending s"
  "heartbeatTimer (send m s) = heartbeatTimer s"
  "intervals (send m s) = intervals s"
  "next_timer (send m s) = next_timer s"
  "ws (send m s) = ws s"
  "sockets (send m s) = sockets s"
  "connected (send m s) = connected s"
  by (simp_all add: send_def split: option.splits)

lemma stopHeartbeat_fields [simp]:
  "reconnectAttempts (stopHeartbeat s) = reconnectAttempts s"
  "reconnectDelay (stopHeartbeat s) = reconnectDelay s"
  "scheduled (stopHeartbeat s) = scheduled s"
  "pending (stopHeartbeat s) = pending s"
  "ws (stopHeartbeat s) = ws s"
  "sockets (stopHeartbeat s) = sockets s"
  "connected (stopHeartbeat s) = connected s"
  "wire (stopHeartbeat s) = wire s"
  "heartbeatTimer (stopHeartbeat s) = None"
  by (simp_all add: stopHeartbeat_def split: option.splits)

lemma startHeartbeat_fields [simp]:
  "reconnectAttempts (startHeartbeat s) = reconnectAttempts s"
  "reconnectDelay (startHeartbeat s) = reconnectDelay s"
  "scheduled (startHeartbeat s) = scheduled s"
  "pending (startHeartbeat s) = pending s"
  "ws (startHeartbeat s) = ws s"
  "sockets (startHeartbeat s) = sockets s"
  "connected (startHeartbeat s) = connected s"
  "wire (startHeartbeat s) = wire s"
  by (simp_all add: startHeartbeat_def Let_def)

lemma connect_fields [simp]:
  "reconnectAttempts (connect ok s) = reconnectAttempts s"
  "reconnectDelay (connect ok s) = reconnectDelay s"
  "scheduled (connect ok s) = scheduled s"
  "pending (connect ok s) = pending s"
  by (simp_all add: connect_def)

lemma disconnect_fields [simp]:
  "reconnectAttempts (disconnect s) = reconnectAttempts s"
  "reconnectDelay (disconnect s) = reconnectDelay s"
  "scheduled (disconnect s) = scheduled s"
  "pending (disconnect s) = pending s"
  by (simp_all add: disconnect_def Let_def socket_close_def split: option.splits)

subsection \<open>Opening and closing\<close>

lemma onopen_resets:
  "reconnectAttempts (onopen s) = 0" "reconnectDelay (onopen s) = 1000"
  "scheduled (onopen s) = scheduled s"
  by (simp_all add: onopen_def)

lemma onclose_retry:
  "reconnectAttempts s < maxReconnectAttempts \<Longrightarrow>
     reconnectAttempts (onclose s) = Suc (reconnectAttempts s) \<and>
     reconnectDelay (onclose s) = min (reconnectDelay s * 2) 30000 \<and>
     scheduled (onclose s) = scheduled s @ [reconnectDelay s]"
  by (simp add: onclose_def Let_def)

lemma onclose_exhausted:
  "\<not> reconnectAttempts s < maxReconnectAttempts \<Longrightarrow>
     reconnectAttempts (onclose s) = reconnectAttempts s \<and>
     reconnectDelay (onclose s) = reconnectDelay s \<and>
     scheduled (onclose s) = scheduled s"
  by (simp add: onclose_def Let_def)

lemma other_step_keeps:
  "\<not> is_open_event e \<Longrightarrow> \<not> is_close_event e \<Longrightarrow>
     reconnectAttempts (store_step s e) = reconnectAttempts s \<and>
     reconnectDelay (store_step s e) = reconnectDelay s \<and>
     scheduled (store_step s e) = scheduled s"
  by (cases e) simp_all

subsection \<open>The capped doubling\<close>

lemma cap_step:
  fixes d C p :: nat
  assumes "1 \<le> p"
  shows "min (min (d * 2) C * p) C = min (d * 2 * p) C"
proof (cases "d * 2 \<le> C")
  case True
  then show ?thesis by (simp add: min_absorb1)
next
  case False
  then have a: "min (d * 2) C = C" by simp
  have b: "C \<le> C * p" using assms by simp
  have "C \<le> d * 2" using False by simp
  also have "\<dots> \<le> d * 2 * p" using assms by simp
  finally have c: "C \<le> d * 2 * p" .
  show ?thesis unfolding a using b c by (simp add: min_absorb2)
qed

lemma backoff_delays_Suc:
  "d \<le> 30000 \<Longrightarrow> backoff_delays d (Suc m) = d # backoff_delays (min (d * 2) 30000) m"
proof -
  assume d: "d \<le> 30000"
  have step: "min (min (d * 2) 30000 * 2 ^ k) 30000 = min (d * 2 ^ Suc k) (30000::nat)" for k
    using cap_step[of "2 ^ k" d 30000] by (simp add: mult.assoc)
  have "[0..<Suc m] = 0 # map Suc [0..<m]"
    by (simp add: upt_conv_Cons map_Suc_upt del: upt_Suc)
  then show ?thesis using d step by (simp add: backoff_delays_def comp_def del: upt_Suc)
qed

subsection \<open>A run without a successful open\<close>

lemma backoff_run:
  "reconnectDelay s \<le> 30000 \<Longrightarrow> \<not> list_ex is_open_event es \<Longrightarrow>
   reconnectAttempts (store_run s es) =
     reconnectAttempts s + min (closes es) (maxReconnectAttempts - reconnectAttempts s) \<and>
   reconnectDelay (store_run s es) =
     min (reconnectDelay s * 2 ^ min (closes es) (maxReconnectAttempts - reconnectAttempts s))
       30000 \<and>
   scheduled (store_run s es) =
     scheduled s @ backoff_delays (reconnectDelay s)
       (min (closes es) (maxReconnectAttempts - reconnectAttempts s))"
proof (induction es arbitrary: s)
  case Nil
  then show ?case by (simp add: store_run_def closes_def backoff_delays_def)
next
  case (Cons e es)
  let ?n = "store_step s e"
  have run: "store_run s (e # es) = store_run ?n es" by (simp add: store_run_def)
  from Cons.prems have nopen: "\<not> is_open_event e" "\<not> list_ex is_open_event es" by simp_all
  show ?case
  proof (cases "is_close_event e")
    case False
    with nopen have keep: "reconnectAttempts ?n = reconnectAttempts s"
       "reconnectDelay ?n = reconnectDelay s" "scheduled ?n = scheduled s"
      using other_step_keeps[of e s] by simp_all
    have c: "closes (e # es) = closes es" using False by (simp add: closes_def)
    from Cons.IH[of ?n] keep Cons.prems(1) nopen(2) show ?thesis
      unfolding run c by simp
  next
    case True
    then obtain i where e: "e = SockClose i" by (cases e) simp_all
    have c: "closes (e # es) = Suc (closes es)" using True by (simp add: closes_def)
    let ?u = "s\<lparr> sockets := (sockets s)[i := CLOSED] \<rparr>"
    have n: "?n = onclose ?u" by (simp add: e)
    show ?thesis
    proof (cases "reconnectAttempts s < maxReconnectAttempts")
      case True
      then have r: "reconnectAttempts ?n = Suc (reconnectAttempts s)"
        "reconnectDelay ?n = min (reconnectDelay s * 2) 30000"
        "scheduled ?n = scheduled s @ [reconnectDelay s]"
        using onclose_retry[of ?u] unfolding n by simp_all
      have m: "min (Suc (closes es)) (maxReconnectAttempts - reconnectAttempts s)
          = Suc (min (closes es) (maxReconnectAttempts - Suc (reconnectAttempts s)))"
        using True by arith
      have d': "reconnectDelay ?n \<le> 30000" using r by simp
      have pw: "min (min (reconnectDelay s * 2) 30000 * 2 ^ k) 30000
           = min (reconnectDelay s * 2 ^ Suc k) (30000::nat)" for k
        using cap_step[of "2 ^ k" "reconnectDelay s" 30000] by (simp add: mult.assoc)
      from Cons.IH[of ?n] d' nopen(2) r show ?thesis
        unfolding run c m using backoff_delays_Suc[OF Cons.prems(1)] pw by simp
    next
      case False
      then have r: "reconnectAttempts ?n = reconnectAttempts s"
        "reconnectDelay ?n = reconnectDelay s"
        "scheduled ?n = scheduled s"
        using onclose_exhausted[of ?u] unfolding n by simp_all
      have m: "maxReconnectAttempts - reconnectAttempts s = 0" using False by simp
      from Cons.IH[of ?n] r Cons.prems(1) nopen(2) show ?thesis
        unfolding run c by (simp add: m)
    qed
  qed
qed

lemma delay_capped_step:
  "reconnectDelay s \<le> 30000 \<Longrightarrow> reconnectDelay (store_step s e) \<le> 30000"
proof (cases e)
  case (SockOpen i)
  then show ?thesis by (simp add: onopen_resets)
next
  case (SockClose i)
  assume "reconnectDelay s \<le> 30000"
  with SockClose show ?thesis by (simp add: onclose_def Let_def)
qed simp_all

lemma delay_capped_run:
  "reconnectDelay s \<le> 30000 \<Longrightarrow> reconnectDelay (store_run s es) \<le> 30000"
proof (induction es arbitrary: s)
  case Nil
  then show ?case by (simp add: store_run_def)
next
  case (Cons e es)
  from Cons.IH[OF delay_capped_step[OF Cons.prems, of e]] show ?case
    by (simp add: store_run_def)
qed

lemma delay_capped: "reconnectDelay (store_run store_init es) \<le> 30000"
  by (rule delay_capped_run) (simp add: store_init_def)

subsection \<open>The claims about the connection store\<close>

text \<open>
  C4. The claim: after \<open>disconnect()\<close> no reconnection is scheduled; the heartbeat is
  stopped, the transport is closed, and the close of the transport that follows does
  not schedule a later \<open>connect()\<close>.

  The store connects, the socket opens, and the application calls \<open>disconnect()\<close>.
  The heartbeat is stopped, the socket is closing and the handle is cleared, and
  nothing is scheduled so far. The socket still carries the \<open>onclose\<close> handler that
  \<open>connect()\<close> attached; when its \<open>close\<close> event arrives, the handler schedules
  \<open>connect()\<close> after 1000 ms, and when that timer fires a second socket is created.
\<close>

theorem disconnect_then_close_reconnects:
  "heartbeatTimer (store_run store_init [CallConnect True, SockOpen 0, CallDisconnect]) = None \<and>
   intervals (store_run store_init [CallConnect True, SockOpen 0, CallDisconnect]) = [] \<and>
   sockets (store_run store_init [CallConnect True, SockOpen 0, CallDisconnect]) = [CLOSING] \<and>
   ws (store_run store_init [CallConnect True, SockOpen 0, CallDisconnect]) = None \<and>
   scheduled (store_run store_init [CallConnect True, SockOpen 0, CallDisconnect]) = [] \<and>
   scheduled (store_run store_init [CallConnect True, SockOpen 0, CallDisconnect, SockClose 0])
     = [1000] \<and>
   pending (store_run store_init [CallConnect True, SockOpen 0, CallDisconnect, SockClose 0])
     = 1 \<and>
   sockets (store_run store_init
      [CallConnect True, SockOpen 0, CallDisconnect, SockClose 0, TimerFire True])
     = [CLOSED, CONNECTING] \<and>
   ws (store_run store_init
      [CallConnect True, SockOpen 0, CallDisconnect, SockClose 0, TimerFire True])
     = Some 1"
  by (simp add: store_run_def store_init_def connect_def ws_is_open_def ready_def onopen_def
      send_def startHeartbeat_def stopHeartbeat_def disconnect_def socket_close_def
      onclose_def maxReconnectAttempts_def Let_def)

text \<open>
  C5, as the claim states it: \<open>connect()\<close> is a no-op when the connection is open or
  connecting. It is not one while the socket is connecting: a second call of
  \<open>connect()\<close> before the first socket has opened creates a second socket and
  replaces the handle.
\<close>

theorem connect_while_connecting_counterexample:
  "ws (connect True store_init) = Some 0 \<and>
   ready (connect True store_init) 0 = Some CONNECTING \<and>
   ws (connect True (connect True store_init)) = Some 1 \<and>
   sockets (connect True (connect True store_init)) = [CONNECTING, CONNECTING] \<and>
   connect True (connect True store_init) \<noteq> connect True store_init"
  by (simp add: store_init_def connect_def ws_is_open_def ready_def)

text \<open>
  C5, amended: \<open>connect()\<close> is a no-op when the socket it holds is open; then no socket
  is created and the whole state, handle, attempt counter and delay included, stays
  as it is. In every state \<open>connect()\<close> leaves the attempt counter and the delay
  unchanged and creates at most one socket.
\<close>

theorem connect_when_open_noop:
  "(ws_is_open s \<longrightarrow> connect ok s = s) \<and>
   reconnectAttempts (connect ok s) = reconnectAttempts s \<and>
   reconnectDelay (connect ok s) = reconnectDelay s \<and>
   length (sockets (connect ok s)) \<le> Suc (length (sockets s))"
  by (simp add: connect_def)

text \<open>
  C5, an instance: after a connect and the socket's \<open>open\<close> event, a further
  \<open>connect()\<close> changes nothing and the one socket stays the only one.
\<close>

theorem connect_when_open_noop_witness:
  "ws_is_open (store_run store_init [CallConnect True, SockOpen 0]) \<and>
   connect True (store_run store_init [CallConnect True, SockOpen 0])
     = store_run store_init [CallConnect True, SockOpen 0] \<and>
   sockets (store_run store_init [CallConnect True, SockOpen 0]) = [OPEN]"
proof -
  have h: "ws_is_open (store_run store_init [CallConnect True, SockOpen 0])"
    by (simp add: store_run_def store_init_def connect_def ws_is_open_def ready_def onopen_def
      send_def startHeartbeat_def stopHeartbeat_def Let_def)
  have k: "sockets (store_run store_init [CallConnect True, SockOpen 0]) = [OPEN]"
    by (simp add: store_run_def store_init_def connect_def ws_is_open_def ready_def onopen_def
      send_def startHeartbeat_def stopHeartbeat_def Let_def)
  show ?thesis
    using h k connect_when_open_noop[of "store_run store_init [CallConnect True, SockOpen 0]" True]
    by simp
qed

text \<open>
  C6. In every state \<open>s\<close> the store can reach: a socket's \<open>open\<close> event sets the attempt
  counter to 0 and the delay to 1000 ms. A \<open>close\<close> event that finds fewer than
  \<open>maxReconnectAttempts\<close> attempts schedules \<open>connect()\<close> after the current delay,
  counts the attempt and doubles the delay up to 30000 ms. Over any further events
  \<open>es\<close> among which no socket opens, the \<open>close\<close> events schedule one \<open>connect()\<close> each
  with these doubled and capped delays until the counter has reached
  \<open>maxReconnectAttempts\<close>, and from then on nothing more is scheduled, however many
  \<open>close\<close> events follow.
\<close>

theorem reconnect_backoff:
  assumes "\<not> list_ex is_open_event es"
  shows "reconnectAttempts (store_step (store_run store_init es0) (SockOpen i)) = 0 \<and>
         reconnectDelay (store_step (store_run store_init es0) (SockOpen i)) = 1000 \<and>
         (reconnectAttempts (store_run store_init es0) < maxReconnectAttempts \<longrightarrow>
            scheduled (store_step (store_run store_init es0) (SockClose j))
              = scheduled (store_run store_init es0) @ [reconnectDelay (store_run store_init es0)] \<and>
            reconnectDelay (store_step (store_run store_init es0) (SockClose j))
              = min (reconnectDelay (store_run store_init es0) * 2) 30000 \<and>
            reconnectAttempts (store_step (store_run store_init es0) (SockClose j))
              = reconnectAttempts (store_run store_init es0) + 1) \<and>
         (maxReconnectAttempts \<le> reconnectAttempts (store_run store_init es0) \<longrightarrow>
            scheduled (store_run (store_run store_init es0) es)
              = scheduled (store_run store_init es0)) \<and>
         reconnectAttempts (store_run (store_run store_init es0) es)
           = reconnectAttempts (store_run store_init es0)
             + min (closes es) (maxReconnectAttempts - reconnectAttempts (store_run store_init es0)) \<and>
         reconnectDelay (store_run (store_run store_init es0) es)
           = min (reconnectDelay (store_run store_init es0)
                    * 2 ^ min (closes es)
                            (maxReconnectAttempts - reconnectAttempts (store_run store_init es0)))
               30000 \<and>
         scheduled (store_run (store_run store_init es0) es)
           = scheduled (store_run store_init es0)
             @ map (\<lambda>k. min (reconnectDelay (store_run store_init es0) * 2 ^ k) 30000)
                 [0..<min (closes es)
                         (maxReconnectAttempts - reconnectAttempts (store_run store_init es0))]"
proof -
  let ?p = "store_run store_init es0"
  have a: "reconnectAttempts (store_step ?p (SockOpen i)) = 0 \<and>
         reconnectDelay (store_step ?p (SockOpen i)) = 1000"
    by (simp add: onopen_resets)
  have b: "reconnectAttempts ?p < maxReconnectAttempts \<longrightarrow>
            scheduled (store_step ?p (SockClose j)) = scheduled ?p @ [reconnectDelay ?p] \<and>
            reconnectDelay (store_step ?p (SockClose j)) = min (reconnectDelay ?p * 2) 30000 \<and>
            reconnectAttempts (store_step ?p (SockClose j)) = reconnectAttempts ?p + 1"
    using onclose_retry[of "?p\<lparr> sockets := (sockets ?p)[j := CLOSED] \<rparr>"] by simp
  note r = backoff_run[OF delay_capped[of es0] assms]
  have c: "maxReconnectAttempts \<le> reconnectAttempts ?p \<longrightarrow>
            scheduled (store_run ?p es) = scheduled ?p"
    using r by (simp add: backoff_delays_def)
  show ?thesis using a b c r by (simp add: backoff_delays_def)
qed

text \<open>
  C6, an instance: from the initial state the connection is lost and twelve \<open>close\<close>
  events arrive with no \<open>open\<close> between them, some reconnect timers firing on the
  way. Ten reconnects are scheduled, after 1, 2, 4, 8, 16 and then five times 30
  seconds, and the last two \<open>close\<close> events schedule nothing.
\<close>

theorem reconnect_backoff_witness:
  "\<not> list_ex is_open_event
       [SockClose 0, TimerFire True, SockClose 1, TimerFire True, SockClose 2,
        SockClose 3, SockClose 4, SockClose 5, SockClose 6, SockClose 7, SockClose 8,
        SockClose 9, SockClose 10, TimerFire True, SockClose 11] \<and>
   reconnectAttempts (store_run store_init []) < maxReconnectAttempts \<and>
   scheduled (store_step (store_run store_init []) (SockClose 0)) = [1000] \<and>
   reconnectDelay (store_step (store_run store_init []) (SockClose 0)) = 2000 \<and>
   reconnectAttempts (store_run (store_run store_init [])
       [SockClose 0, TimerFire True, SockClose 1, TimerFire True, SockClose 2,
        SockClose 3, SockClose 4, SockClose 5, SockClose 6, SockClose 7, SockClose 8,
        SockClose 9, SockClose 10, TimerFire True, SockClose 11]) = 10 \<and>
   scheduled (store_run (store_run store_init [])
       [SockClose 0, TimerFire True, SockClose 1, TimerFire True, SockClose 2,
        SockClose 3, SockClose 4, SockClose 5, SockClose 6, SockClose 7, SockClose 8,
        SockClose 9, SockClose 10, TimerFire True, SockClose 11]) =
     [1000, 2000, 4000, 8000, 16000, 30000, 30000, 30000, 30000, 30000]"
proof -
  have h1: "\<not> list_ex is_open_event
       [SockClose 0, TimerFire True, SockClose 1, TimerFire True, SockClose 2,
        SockClose 3, SockClose 4, SockClose 5, SockClose 6, SockClose 7, SockClose 8,
        SockClose 9, SockClose 10, TimerFire True, SockClose 11]" by simp
  have h2: "reconnectAttempts (store_run store_init []) < maxReconnectAttempts"
    by (simp add: store_run_def store_init_def maxReconnectAttempts_def)
  have s0: "store_run store_init [] = store_init" by (simp add: store_run_def)
  have u: "[0..<10] = [0, 1, 2, 3, 4, 5, 6, 7, 8, 9::nat]"
    by (simp add: upt_rec)
  note t = reconnect_backoff[OF h1, of "[]" 0 0, unfolded s0]
  show ?thesis
    unfolding s0 using h1 h2[unfolded s0] t
    by (simp add: closes_def store_init_def maxReconnectAttempts_def u)
qed

section \<open>Properties of the intervention dialog\<close>

subsection \<open>Field by field\<close>

lemma lit_distinct:
  "lit ''confirm'' \<noteq> lit ''input''" "lit ''input'' \<noteq> lit ''confirm''"
  "lit ''r1'' \<noteq> lit ''r2''" "lit ''r2'' \<noteq> lit ''r1''"
  by (simp_all add: lit_def)

lemma stopCountdown_keeps [simp]:
  "visible (stopCountdown s) = visible s"
  "interventionType (stopCountdown s) = interventionType s"
  "message (stopCountdown s) = message s"
  "options (stopCountdown s) = options s"
  "inputType (stopCountdown s) = inputType s"
  "placeholder (stopCountdown s) = placeholder s"
  "inputValue (stopCountdown s) = inputValue s"
  "timeout (stopCountdown s) = timeout s"
  "remainingTime (stopCountdown s) = remainingTime s"
  "requestId (stopCountdown s) = requestId s"
  "taskId (stopCountdown s) = taskId s"
  "timer_seq (stopCountdown s) = timer_seq s"
  "outbox (stopCountdown s) = outbox s"
  "countdownTimer (stopCountdown s) = None"
  by (simp_all add: stopCountdown_def split: option.splits)

lemma stopCountdown_timers:
  "timers (stopCountdown s) =
     (case countdownTimer s of None \<Rightarrow> timers s | Some t \<Rightarrow> removeAll t (timers s))"
  by (simp add: stopCountdown_def split: option.splits)

lemma handle_request_fields:
  "requestId (handleInterventionRequest d s) = d_request_id d"
  "taskId (handleInterventionRequest d s) = d_task_id d"
  "message (handleInterventionRequest d s) = d_message d"
  "interventionType (handleInterventionRequest d s) = d_intervention_type d"
  "timeout (handleInterventionRequest d s) = num_or (d_timeout d) 60"
  "remainingTime (handleInterventionRequest d s) = num_or (d_timeout d) 60"
  "visible (handleInterventionRequest d s)"
  "countdownTimer (handleInterventionRequest d s) = Some (timer_seq s)"
  "timers (handleInterventionRequest d s) = timers (stopCountdown s) @ [timer_seq s]"
  "timer_seq (handleInterventionRequest d s) = Suc (timer_seq s)"
  "outbox (handleInterventionRequest d s) = outbox s"
  by (simp_all add: handleInterventionRequest_def startCountdown_def Let_def
       stopCountdown_timers split: option.splits)

lemma handle_request_options:
  "d_intervention_type d = lit ''confirm'' \<Longrightarrow>
     options (handleInterventionRequest d s) = arr_or (d_options d) [opt_confirm, opt_cancel]"
  by (simp add: handleInterventionRequest_def startCountdown_def Let_def)

subsection \<open>Awaiting and settled states\<close>

lemma lit_not_timeout: "lit ''User cancelled'' \<noteq> lit ''Timeout''"
  by (simp add: lit_def)

lemma settled_step:
  assumes "settled s" and "\<not> is_intervention e"
  shows "settled (dialog_step s e) \<and>
         requestId (dialog_step s e) = requestId s \<and> taskId (dialog_step s e) = taskId s \<and>
         (outbox (dialog_step s e) = outbox s \<or>
          (\<exists>r. outbox (dialog_step s e) = outbox s @ [HumanInterventionResponse r] \<and>
               request_id r = requestId s \<and> task_id r = taskId s \<and>
               error r \<noteq> Some (lit ''Timeout'')))"
proof (cases e)
  case (Intervention d)
  with assms show ?thesis by simp
next
  case (CountdownTick u)
  with assms show ?thesis by (simp add: settled_def)
next
  case (ClickOption x)
  with assms show ?thesis
    by (auto simp: settled_def handleConfirm_def Let_def sendResponse_def
        stopCountdown_timers)
next
  case (TypeInput v)
  with assms show ?thesis by (auto simp: settled_def)
next
  case PressSubmit
  with assms show ?thesis
    by (auto simp: settled_def handleSubmit_def Let_def sendResponse_def
        stopCountdown_timers)
next
  case ClickCancel
  with assms show ?thesis
    by (auto simp: settled_def handleCancel_def Let_def sendResponse_def
        stopCountdown_timers lit_not_timeout)
qed

lemma awaiting_request:
  "consistent s \<Longrightarrow> awaiting (handleInterventionRequest d s) (timer_seq s)"
  by (auto simp: consistent_def settled_def awaiting_def handle_request_fields
      stopCountdown_timers)

lemma awaiting_step:
  assumes "awaiting s t" and "\<not> is_intervention e"
  shows "(awaiting (dialog_step s e) t \<and> outbox (dialog_step s e) = outbox s \<and>
          requestId (dialog_step s e) = requestId s \<and> taskId (dialog_step s e) = taskId s)
       \<or> (settled (dialog_step s e) \<and>
           requestId (dialog_step s e) = requestId s \<and> taskId (dialog_step s e) = taskId s \<and>
           (\<exists>r. outbox (dialog_step s e) = outbox s @ [HumanInterventionResponse r] \<and>
                request_id r = requestId s \<and> task_id r = taskId s))"
proof (cases e)
  case (Intervention d)
  with assms show ?thesis by simp
next
  case (CountdownTick u)
  with assms show ?thesis
    by (auto simp: awaiting_def settled_def countdown_tick_def Let_def handleTimeout_def
        sendResponse_def stopCountdown_timers)
next
  case (ClickOption x)
  with assms show ?thesis
    by (auto simp: awaiting_def settled_def handleConfirm_def Let_def
        sendResponse_def stopCountdown_timers)
next
  case (TypeInput v)
  with assms show ?thesis by (auto simp: awaiting_def)
next
  case PressSubmit
  with assms show ?thesis
    by (auto simp: awaiting_def settled_def handleSubmit_def Let_def
        sendResponse_def stopCountdown_timers)
next
  case ClickCancel
  with assms show ?thesis
    by (auto simp: awaiting_def settled_def handleCancel_def Let_def
        sendResponse_def stopCountdown_timers)
qed

lemma consistent_step: "consistent s \<Longrightarrow> consistent (dialog_step s e)"
proof (cases "is_intervention e")
  case True
  assume c: "consistent s"
  from True obtain d where "e = Intervention d" by (cases e) simp_all
  then show ?thesis using awaiting_request[OF c, of d] by (auto simp: consistent_def)
next
  case False
  assume c: "consistent s"
  then show ?thesis
    using settled_step[OF _ False, of s] awaiting_step[OF _ False, of s]
    unfolding consistent_def by blast
qed

lemma consistent_run: "consistent s \<Longrightarrow> consistent (dialog_run s es)"
proof (induction es arbitrary: s)
  case Nil
  then show ?case by (simp add: dialog_run_def)
next
  case (Cons e es)
  from Cons.IH[OF consistent_step[OF Cons.prems, of e]] show ?case
    by (simp add: dialog_run_def)
qed

lemma consistent_init: "consistent dialog_init"
  by (simp add: consistent_def settled_def dialog_init_def)





subsection \<open>Counting down\<close>

lemma run_snoc: "dialog_run u (es @ [e]) = dialog_step (dialog_run u es) e"
  by (simp add: dialog_run_def)

lemma replicate_snoc: "replicate (Suc k) x = replicate k x @ [x]"
  by (simp add: replicate_append_same)

lemma ticks_before_deadline:
  "t \<in> set (timers u) \<Longrightarrow> int k < remainingTime u \<Longrightarrow>
     dialog_run u (replicate k (CountdownTick t)) = u\<lparr> remainingTime := remainingTime u - int k \<rparr>"
proof (induction k)
  case 0
  then show ?case by (simp add: dialog_run_def)
next
  case (Suc k)
  then have ih: "dialog_run u (replicate k (CountdownTick t))
      = u\<lparr> remainingTime := remainingTime u - int k \<rparr>" by simp
  have "dialog_run u (replicate (Suc k) (CountdownTick t))
      = dialog_step (dialog_run u (replicate k (CountdownTick t))) (CountdownTick t)"
    unfolding replicate_snoc run_snoc ..
  also have "\<dots> = u\<lparr> remainingTime := remainingTime u - int (Suc k) \<rparr>"
    using Suc.prems by (simp add: ih countdown_tick_def Let_def)
  finally show ?case .
qed

lemma last_tick:
  "t \<in> set (timers u) \<Longrightarrow> countdownTimer u = Some t \<Longrightarrow> remainingTime u \<le> 1 \<Longrightarrow>
     outbox (dialog_step u (CountdownTick t)) = outbox u @
       [HumanInterventionResponse \<lparr> request_id = requestId u, task_id = taskId u,
          success = False, response_type = interventionType u, selected_option = None,
          input_value = None, error = Some (lit ''Timeout'') \<rparr>] \<and>
     \<not> visible (dialog_step u (CountdownTick t)) \<and>
     countdownTimer (dialog_step u (CountdownTick t)) = None \<and>
     t \<notin> set (timers (dialog_step u (CountdownTick t)))"
  by (simp add: countdown_tick_def Let_def handleTimeout_def sendResponse_def
      stopCountdown_timers)

lemma run_to_deadline:
  assumes "t \<in> set (timers u)" and "countdownTimer u = Some t"
  shows "outbox (dialog_run u (replicate (ticks_to_deadline (remainingTime u)) (CountdownTick t)))
       = outbox u @
       [HumanInterventionResponse \<lparr> request_id = requestId u, task_id = taskId u,
          success = False, response_type = interventionType u, selected_option = None,
          input_value = None, error = Some (lit ''Timeout'') \<rparr>] \<and>
     \<not> visible (dialog_run u (replicate (ticks_to_deadline (remainingTime u)) (CountdownTick t))) \<and>
     countdownTimer (dialog_run u (replicate (ticks_to_deadline (remainingTime u)) (CountdownTick t))) = None \<and>
     t \<notin> set (timers (dialog_run u (replicate (ticks_to_deadline (remainingTime u)) (CountdownTick t))))"
proof -
  obtain k where k: "ticks_to_deadline (remainingTime u) = Suc k"
    by (cases "ticks_to_deadline (remainingTime u)") (auto simp: ticks_to_deadline_def split: if_splits)
  have lt: "remainingTime u \<le> 1 \<or> int k < remainingTime u"
    using k by (auto simp: ticks_to_deadline_def split: if_splits)
  have k0: "remainingTime u \<le> 1 \<Longrightarrow> k = 0"
    using k by (simp add: ticks_to_deadline_def)
  let ?v = "dialog_run u (replicate k (CountdownTick t))"
  have v: "?v = u\<lparr> remainingTime := remainingTime u - int k \<rparr>"
  proof (cases "remainingTime u \<le> 1")
    case True
    then show ?thesis using k0 by (simp add: dialog_run_def)
  next
    case False
    with lt show ?thesis using ticks_before_deadline[OF assms(1)] by simp
  qed
  have le: "remainingTime ?v \<le> 1"
    using k v by (simp add: ticks_to_deadline_def split: if_splits)
  have split: "dialog_run u (replicate (Suc k) (CountdownTick t))
      = dialog_step ?v (CountdownTick t)"
    unfolding replicate_snoc run_snoc ..
  have "t \<in> set (timers ?v)" "countdownTimer ?v = Some t" using assms v by simp_all
  from last_tick[OF this le] show ?thesis unfolding k split using v by simp
qed

subsection \<open>Evaluating the handlers on the examples\<close>

lemmas dialog_eval =
  dialog_run_def dialog_init_def handleInterventionRequest_def startCountdown_def
  stopCountdown_def countdown_tick_def handleTimeout_def handleConfirm_def
  handleSubmit_def handleCancel_def sendResponse_def num_or_def str_or_def arr_or_def
  trim_empty_def js_whitespace_def ex_confirm_def ex_confirm_again_def ex_input_def
  lit_distinct Let_def



lemma before_deadline:
  assumes "k < ticks_to_deadline (remainingTime u)" and "t \<in> set (timers u)"
  shows "dialog_run u (replicate k (CountdownTick t))
           = u\<lparr> remainingTime := remainingTime u - int k \<rparr>"
proof (cases "remainingTime u \<le> 1")
  case True
  with assms(1) have "k = 0" by (simp add: ticks_to_deadline_def)
  then show ?thesis by (simp add: dialog_run_def)
next
  case False
  with assms(1) have "int k < remainingTime u" by (simp add: ticks_to_deadline_def)
  from ticks_before_deadline[OF assms(2) this] show ?thesis .
qed

subsection \<open>The claims about the intervention dialog\<close>

text \<open>
  C1, as the claim states it: a \<open>human-intervention-needed\<close> event that arrives while a
  request of the same task is pending is dropped and the pending request's state
  stays as it is. It is not dropped: with the request \<open>r1\<close> of task \<open>t1\<close> shown and its
  countdown running, the event for \<open>r3\<close> of the same task replaces request id,
  message, options and remaining time.
\<close>

theorem second_request_counterexample:
  "visible (dialog_run dialog_init [Intervention ex_confirm]) \<and>
   countdownTimer (dialog_run dialog_init [Intervention ex_confirm]) = Some 1 \<and>
   requestId (dialog_run dialog_init [Intervention ex_confirm]) = lit ''r1'' \<and>
   taskId (dialog_run dialog_init [Intervention ex_confirm]) = d_task_id ex_confirm_again \<and>
   requestId (dialog_run dialog_init [Intervention ex_confirm, Intervention ex_confirm_again])
     = lit ''r3'' \<and>
   message (dialog_run dialog_init [Intervention ex_confirm, Intervention ex_confirm_again])
     = lit ''Sure?'' \<and>
   options (dialog_run dialog_init [Intervention ex_confirm, Intervention ex_confirm_again])
     = [lit ''Yes'', lit ''No''] \<and>
   remainingTime (dialog_run dialog_init [Intervention ex_confirm, Intervention ex_confirm_again])
     = 30 \<and>
   dialog_run dialog_init [Intervention ex_confirm, Intervention ex_confirm_again]
     \<noteq> dialog_run dialog_init [Intervention ex_confirm]"
  by (simp add: dialog_eval)

text \<open>
  C1, amended: the dialog holds one request. In every state it can reach, pending
  request or not, the handler of a \<open>human-intervention-needed\<close> event stores the
  event's request id, task id, message and kind (and, for kind \<open>confirm\<close>, its
  options), sets timeout and remaining time from the event, shows the dialog, and
  replaces the countdown: afterwards exactly one countdown runs, the new one. It
  sends nothing. So at most one request is held at any time, the latest.
\<close>

theorem request_replaces_slot:
  "requestId (handleInterventionRequest d (dialog_run dialog_init es)) = d_request_id d \<and>
   taskId (handleInterventionRequest d (dialog_run dialog_init es)) = d_task_id d \<and>
   message (handleInterventionRequest d (dialog_run dialog_init es)) = d_message d \<and>
   interventionType (handleInterventionRequest d (dialog_run dialog_init es))
     = d_intervention_type d \<and>
   (d_intervention_type d = lit ''confirm'' \<longrightarrow>
      options (handleInterventionRequest d (dialog_run dialog_init es))
        = arr_or (d_options d) [opt_confirm, opt_cancel]) \<and>
   timeout (handleInterventionRequest d (dialog_run dialog_init es))
     = num_or (d_timeout d) 60 \<and>
   remainingTime (handleInterventionRequest d (dialog_run dialog_init es))
     = num_or (d_timeout d) 60 \<and>
   visible (handleInterventionRequest d (dialog_run dialog_init es)) \<and>
   countdownTimer (handleInterventionRequest d (dialog_run dialog_init es))
     = Some (timer_seq (dialog_run dialog_init es)) \<and>
   timers (handleInterventionRequest d (dialog_run dialog_init es))
     = [timer_seq (dialog_run dialog_init es)] \<and>
   outbox (handleInterventionRequest d (dialog_run dialog_init es))
     = outbox (dialog_run dialog_init es)"
proof -
  have "consistent (dialog_run dialog_init es)"
    by (rule consistent_run[OF consistent_init])
  from awaiting_request[OF this, of d]
  have "timers (handleInterventionRequest d (dialog_run dialog_init es))
     = [timer_seq (dialog_run dialog_init es)]"
    by (simp add: awaiting_def)
  then show ?thesis
    by (simp add: handle_request_fields handle_request_options)
qed

text \<open>
  C1, an instance: with request \<open>r1\<close> pending, the event for \<open>r3\<close> puts \<open>r3\<close> and its
  options in the dialog, and the only countdown that runs is the new one.
\<close>

theorem request_replaces_slot_witness:
  "d_intervention_type ex_confirm_again = lit ''confirm'' \<and>
   visible (dialog_run dialog_init [Intervention ex_confirm]) \<and>
   requestId (dialog_run dialog_init [Intervention ex_confirm]) = lit ''r1'' \<and>
   requestId (handleInterventionRequest ex_confirm_again
      (dialog_run dialog_init [Intervention ex_confirm])) = lit ''r3'' \<and>
   options (handleInterventionRequest ex_confirm_again
      (dialog_run dialog_init [Intervention ex_confirm])) = [lit ''Yes'', lit ''No''] \<and>
   timers (handleInterventionRequest ex_confirm_again
      (dialog_run dialog_init [Intervention ex_confirm])) = [2]"
proof -
  have h: "d_intervention_type ex_confirm_again = lit ''confirm''"
    by (simp add: ex_confirm_again_def)
  have a: "visible (dialog_run dialog_init [Intervention ex_confirm]) \<and>
     requestId (dialog_run dialog_init [Intervention ex_confirm]) = lit ''r1'' \<and>
     timer_seq (dialog_run dialog_init [Intervention ex_confirm]) = 2"
    by (simp add: dialog_eval)
  have b: "d_request_id ex_confirm_again = lit ''r3'' \<and>
     arr_or (d_options ex_confirm_again) [opt_confirm, opt_cancel] = [lit ''Yes'', lit ''No'']"
    by (simp add: ex_confirm_again_def arr_or_def)
  show ?thesis
    using h a b request_replaces_slot[of ex_confirm_again "[Intervention ex_confirm]"]
    by simp
qed




text \<open>
  C7. A \<open>human-intervention-needed\<close> event arrives in any state, and then nothing but
  the ticks of its countdown. When the countdown has run out, exactly one message
  has been sent since the event: the response with the event's request id and task
  id, \<open>success\<close> false, error \<open>Timeout\<close>, and the event's kind as response type. The
  dialog is hidden, no countdown is set and the timer is cleared. On every tick
  before that nothing is sent and the dialog stays shown with its countdown.
\<close>

theorem countdown_expiry_sends_timeout:
  "outbox (dialog_run (handleInterventionRequest d s)
      (replicate (ticks_to_deadline (num_or (d_timeout d) 60)) (CountdownTick (timer_seq s))))
     = outbox s @
       [HumanInterventionResponse
          \<lparr> request_id = d_request_id d, task_id = d_task_id d, success = False,
            response_type = d_intervention_type d, selected_option = None,
            input_value = None, error = Some (lit ''Timeout'') \<rparr>] \<and>
   \<not> visible (dialog_run (handleInterventionRequest d s)
      (replicate (ticks_to_deadline (num_or (d_timeout d) 60)) (CountdownTick (timer_seq s)))) \<and>
   countdownTimer (dialog_run (handleInterventionRequest d s)
      (replicate (ticks_to_deadline (num_or (d_timeout d) 60)) (CountdownTick (timer_seq s))))
     = None \<and>
   timer_seq s \<notin> set (timers (dialog_run (handleInterventionRequest d s)
      (replicate (ticks_to_deadline (num_or (d_timeout d) 60)) (CountdownTick (timer_seq s))))) \<and>
   (\<forall>k < ticks_to_deadline (num_or (d_timeout d) 60).
      outbox (dialog_run (handleInterventionRequest d s) (replicate k (CountdownTick (timer_seq s))))
        = outbox s \<and>
      visible (dialog_run (handleInterventionRequest d s)
        (replicate k (CountdownTick (timer_seq s)))) \<and>
      countdownTimer (dialog_run (handleInterventionRequest d s)
        (replicate k (CountdownTick (timer_seq s)))) = Some (timer_seq s))"
proof -
  let ?u = "handleInterventionRequest d s"
  let ?t = "timer_seq s"
  have t: "?t \<in> set (timers ?u)" by (simp add: handle_request_fields)
  have c: "countdownTimer ?u = Some ?t" by (simp add: handle_request_fields)
  have r: "remainingTime ?u = num_or (d_timeout d) 60" by (simp add: handle_request_fields)
  from run_to_deadline[OF t c]
  have fin: "outbox (dialog_run ?u
        (replicate (ticks_to_deadline (num_or (d_timeout d) 60)) (CountdownTick ?t)))
       = outbox s @
       [HumanInterventionResponse
          \<lparr> request_id = d_request_id d, task_id = d_task_id d, success = False,
            response_type = d_intervention_type d, selected_option = None,
            input_value = None, error = Some (lit ''Timeout'') \<rparr>] \<and>
     \<not> visible (dialog_run ?u
        (replicate (ticks_to_deadline (num_or (d_timeout d) 60)) (CountdownTick ?t))) \<and>
     countdownTimer (dialog_run ?u
        (replicate (ticks_to_deadline (num_or (d_timeout d) 60)) (CountdownTick ?t))) = None \<and>
     ?t \<notin> set (timers (dialog_run ?u
        (replicate (ticks_to_deadline (num_or (d_timeout d) 60)) (CountdownTick ?t))))"
    by (simp add: handle_request_fields)
  have before: "outbox (dialog_run ?u (replicate k (CountdownTick ?t))) = outbox s \<and>
      visible (dialog_run ?u (replicate k (CountdownTick ?t))) \<and>
      countdownTimer (dialog_run ?u (replicate k (CountdownTick ?t))) = Some ?t"
    if "k < ticks_to_deadline (num_or (d_timeout d) 60)" for k
  proof -
    from that r have "k < ticks_to_deadline (remainingTime ?u)" by simp
    from before_deadline[OF this t] show ?thesis by (simp add: handle_request_fields)
  qed
  from fin before show ?thesis by blast
qed

text \<open>
  C7, an instance: the confirmation request \<open>r1\<close> with the options
  \<open>opt_confirm\<close>, \<open>opt_cancel\<close> and a timeout of five seconds. After four ticks the
  dialog is still shown and nothing is sent; the fifth tick sends the timeout
  response for \<open>r1\<close>.
\<close>

theorem countdown_expiry_sends_timeout_witness:
  "ticks_to_deadline (num_or (d_timeout ex_confirm) 60) = 5 \<and>
   timer_seq dialog_init = 1 \<and>
   (4::nat) < 5 \<and>
   visible (dialog_run (handleInterventionRequest ex_confirm dialog_init)
     (replicate 4 (CountdownTick 1))) \<and>
   outbox (dialog_run (handleInterventionRequest ex_confirm dialog_init)
     (replicate 4 (CountdownTick 1))) = [] \<and>
   outbox (dialog_run (handleInterventionRequest ex_confirm dialog_init)
     (replicate 5 (CountdownTick 1)))
     = [HumanInterventionResponse
          \<lparr> request_id = lit ''r1'', task_id = lit ''t1'', success = False,
            response_type = lit ''confirm'', selected_option = None,
            input_value = None, error = Some (lit ''Timeout'') \<rparr>] \<and>
   \<not> visible (dialog_run (handleInterventionRequest ex_confirm dialog_init)
     (replicate 5 (CountdownTick 1))) \<and>
   countdownTimer (dialog_run (handleInterventionRequest ex_confirm dialog_init)
     (replicate 5 (CountdownTick 1))) = None"
proof -
  have n: "ticks_to_deadline (num_or (d_timeout ex_confirm) 60) = 5"
    by (simp add: ticks_to_deadline_def num_or_def ex_confirm_def)
  have q: "timer_seq dialog_init = 1" by (simp add: dialog_init_def)
  have f: "d_request_id ex_confirm = lit ''r1''" "d_task_id ex_confirm = lit ''t1''"
    "d_intervention_type ex_confirm = lit ''confirm''" "outbox dialog_init = []"
    by (simp_all add: ex_confirm_def dialog_init_def)
  note t = countdown_expiry_sends_timeout[of ex_confirm dialog_init, unfolded n q f]
  from t have b: "\<forall>k<5. outbox (dialog_run (handleInterventionRequest ex_confirm dialog_init)
        (replicate k (CountdownTick 1))) = [] \<and>
      visible (dialog_run (handleInterventionRequest ex_confirm dialog_init)
        (replicate k (CountdownTick 1))) \<and>
      countdownTimer (dialog_run (handleInterventionRequest ex_confirm dialog_init)
        (replicate k (CountdownTick 1))) = Some 1"
    by blast
  have l: "(4::nat) < 5" by simp
  from b l have b4: "outbox (dialog_run (handleInterventionRequest ex_confirm dialog_init)
        (replicate 4 (CountdownTick 1))) = [] \<and>
      visible (dialog_run (handleInterventionRequest ex_confirm dialog_init)
        (replicate 4 (CountdownTick 1)))"
    by blast
  from n q l b4 t show ?thesis by simp
qed

text \<open>
  C8. When the event's \<open>timeout\<close> is absent, \<open>null\<close> or \<open>0\<close>, the handler sets the
  timeout and the remaining time to 60 and starts the countdown.
\<close>

theorem default_timeout_sixty:
  assumes "d_timeout d = Absent \<or> d_timeout d = Null \<or> d_timeout d = Val 0"
  shows "timeout (handleInterventionRequest d s) = 60 \<and>
         remainingTime (handleInterventionRequest d s) = 60 \<and>
         countdownTimer (handleInterventionRequest d s) = Some (timer_seq s) \<and>
         timer_seq s \<in> set (timers (handleInterventionRequest d s))"
  using assms by (auto simp: handle_request_fields num_or_def)

text \<open>
  C8, instances: a payload without \<open>timeout\<close>, one with \<open>timeout: null\<close> and one with
  \<open>timeout: 0\<close> each start the countdown at 60.
\<close>

theorem default_timeout_sixty_witness:
  "(d_timeout ex_input = Absent \<or> d_timeout ex_input = Null \<or> d_timeout ex_input = Val 0) \<and>
   remainingTime (handleInterventionRequest ex_input dialog_init) = 60 \<and>
   timeout (handleInterventionRequest ex_input dialog_init) = 60 \<and>
   remainingTime (handleInterventionRequest (ex_input\<lparr> d_timeout := Null \<rparr>) dialog_init) = 60 \<and>
   remainingTime (handleInterventionRequest (ex_confirm\<lparr> d_timeout := Val 0 \<rparr>) dialog_init) = 60"
proof -
  have h1: "d_timeout ex_input = Absent \<or> d_timeout ex_input = Null \<or> d_timeout ex_input = Val 0"
    by (simp add: ex_input_def)
  have h2: "d_timeout (ex_input\<lparr> d_timeout := Null \<rparr>) = Absent
      \<or> d_timeout (ex_input\<lparr> d_timeout := Null \<rparr>) = Null
      \<or> d_timeout (ex_input\<lparr> d_timeout := Null \<rparr>) = Val 0"
    by simp
  have h3: "d_timeout (ex_confirm\<lparr> d_timeout := Val 0 \<rparr>) = Absent
      \<or> d_timeout (ex_confirm\<lparr> d_timeout := Val 0 \<rparr>) = Null
      \<or> d_timeout (ex_confirm\<lparr> d_timeout := Val 0 \<rparr>) = Val 0"
    by simp
  from h1 default_timeout_sixty[OF h1, of dialog_init]
    default_timeout_sixty[OF h2, of dialog_init]
    default_timeout_sixty[OF h3, of dialog_init]
  show ?thesis by blast
qed

text \<open>
  C9. For an event of kind \<open>confirm\<close>: when its \<open>options\<close> are absent or \<open>null\<close>, the
  dialog offers the two options \<open>opt_confirm\<close> and \<open>opt_cancel\<close>, in this order; when
  a list of options is given, the dialog offers that list as it is.
\<close>

theorem confirm_default_options:
  assumes "d_intervention_type d = lit ''confirm''"
  shows "(d_options d = Absent \<or> d_options d = Null \<longrightarrow>
            options (handleInterventionRequest d s) = [opt_confirm, opt_cancel]) \<and>
         (\<forall>xs. d_options d = Val xs \<longrightarrow> options (handleInterventionRequest d s) = xs)"
  using assms by (auto simp: handle_request_options arr_or_def)

text \<open>
  C9, instances: a confirmation request without \<open>options\<close> and one with
  \<open>options: null\<close> get the two default options, whose code units are those of the
  source's literals; the request that brings \<open>Yes\<close> and \<open>No\<close> keeps them.
\<close>

theorem confirm_default_options_witness:
  "d_intervention_type (ex_confirm\<lparr> d_options := Absent \<rparr>) = lit ''confirm'' \<and>
   (d_options (ex_confirm\<lparr> d_options := Absent \<rparr>) = Absent
      \<or> d_options (ex_confirm\<lparr> d_options := Absent \<rparr>) = Null) \<and>
   options (handleInterventionRequest (ex_confirm\<lparr> d_options := Absent \<rparr>) dialog_init)
     = [[0x786E, 0x8BA4], [0x53D6, 0x6D88]] \<and>
   options (handleInterventionRequest (ex_confirm\<lparr> d_options := Null \<rparr>) dialog_init)
     = [[0x786E, 0x8BA4], [0x53D6, 0x6D88]] \<and>
   d_options ex_confirm_again = Val [lit ''Yes'', lit ''No''] \<and>
   options (handleInterventionRequest ex_confirm_again dialog_init) = [lit ''Yes'', lit ''No'']"
proof -
  have h1: "d_intervention_type (ex_confirm\<lparr> d_options := Absent \<rparr>) = lit ''confirm''"
    by (simp add: ex_confirm_def)
  have h2: "d_intervention_type (ex_confirm\<lparr> d_options := Null \<rparr>) = lit ''confirm''"
    by (simp add: ex_confirm_def)
  have h3: "d_intervention_type ex_confirm_again = lit ''confirm''"
    by (simp add: ex_confirm_again_def)
  have o: "d_options ex_confirm_again = Val [lit ''Yes'', lit ''No'']"
    by (simp add: ex_confirm_again_def)
  have a: "d_options (ex_confirm\<lparr> d_options := Absent \<rparr>) = Absent
      \<or> d_options (ex_confirm\<lparr> d_options := Absent \<rparr>) = Null" by simp
  have b: "d_options (ex_confirm\<lparr> d_options := Null \<rparr>) = Absent
      \<or> d_options (ex_confirm\<lparr> d_options := Null \<rparr>) = Null" by simp
  have v: "[opt_confirm, opt_cancel] = [[0x786E, 0x8BA4], [0x53D6, 0x6D88]]"
    by (simp add: opt_confirm_def opt_cancel_def)
  from confirm_default_options[OF h1, of dialog_init] a
  have r1: "options (handleInterventionRequest (ex_confirm\<lparr> d_options := Absent \<rparr>) dialog_init)
      = [opt_confirm, opt_cancel]" by blast
  from confirm_default_options[OF h2, of dialog_init] b
  have r2: "options (handleInterventionRequest (ex_confirm\<lparr> d_options := Null \<rparr>) dialog_init)
      = [opt_confirm, opt_cancel]" by blast
  from confirm_default_options[OF h3, of dialog_init] o
  have r3: "options (handleInterventionRequest ex_confirm_again dialog_init)
      = [lit ''Yes'', lit ''No'']" by blast
  from h1 a r1 r2 r3 o show ?thesis unfolding v by blast
qed

section \<open>Properties of the live task preview\<close>

subsection \<open>The timer variables track the timers\<close>


lemma loops_clear:
  "map fst (filter (\<lambda>p. snd p = c) (clearInterval t xs))
     = removeAll t (map fst (filter (\<lambda>p. snd p = c) xs))"
  by (induction xs) (auto simp: clearInterval_def)

lemma clear_subset: "set (clearInterval t xs) \<subseteq> set xs"
  by (auto simp: clearInterval_def)

lemma clear_distinct: "distinct (map fst xs) \<Longrightarrow> distinct (map fst (clearInterval t xs))"
  by (simp add: clearInterval_def distinct_map_filter)

lemma other_kind_untouched:
  assumes "distinct (map fst xs)" and "(t, c) \<in> set xs" and "c \<noteq> c'"
  shows "removeAll t (map fst (filter (\<lambda>p. snd p = c') xs))
           = map fst (filter (\<lambda>p. snd p = c') xs)"
proof -
  have "t \<notin> set (map fst (filter (\<lambda>p. snd p = c') xs))"
  proof
    assume "t \<in> set (map fst (filter (\<lambda>p. snd p = c') xs))"
    then have "(t, c') \<in> set xs" by auto
    from eq_key_imp_eq_value[OF assms(1) assms(2) this] have "c = c'" .
    with assms(3) show False by simp
  qed
  then show ?thesis by simp
qed

lemma in_loops:
  "t \<in> set (map fst (filter (\<lambda>p. snd p = c) xs)) \<Longrightarrow> (t, c) \<in> set xs"
  by auto

lemma tracked_stopPolling: "tracked s \<Longrightarrow> tracked (stopPolling s)"
proof (cases "pollingTimer s")
  case None
  assume "tracked s"
  with None show ?thesis by (simp add: stopPolling_def)
next
  case (Some t)
  assume tr: "tracked s"
  then have d: "distinct (map fst (pv_intervals s))" by (simp add: tracked_def)
  from tr Some have "poll_loops s = [t]" by (simp add: tracked_def)
  then have "(t, PollCb) \<in> set (pv_intervals s)"
    using in_loops[of t PollCb "pv_intervals s"] by (simp add: poll_loops_def)
  from other_kind_untouched[OF d this, of ElapsedCb]
  have e: "removeAll t (elapsed_loops s) = elapsed_loops s" by (simp add: elapsed_loops_def)
  show ?thesis
    using tr Some e clear_subset[of t "pv_intervals s"] clear_distinct[OF d, of t]
    by (auto simp: tracked_def stopPolling_def poll_loops_def elapsed_loops_def loops_clear)
qed

lemma tracked_stopElapsedTimer: "tracked s \<Longrightarrow> tracked (stopElapsedTimer s)"
proof (cases "elapsedTimer s")
  case None
  assume "tracked s"
  with None show ?thesis by (simp add: stopElapsedTimer_def)
next
  case (Some t)
  assume tr: "tracked s"
  then have d: "distinct (map fst (pv_intervals s))" by (simp add: tracked_def)
  from tr Some have "elapsed_loops s = [t]" by (simp add: tracked_def)
  then have "(t, ElapsedCb) \<in> set (pv_intervals s)"
    using in_loops[of t ElapsedCb "pv_intervals s"] by (simp add: elapsed_loops_def)
  from other_kind_untouched[OF d this, of PollCb]
  have e: "removeAll t (poll_loops s) = poll_loops s" by (simp add: poll_loops_def)
  show ?thesis
    using tr Some e clear_subset[of t "pv_intervals s"] clear_distinct[OF d, of t]
    by (auto simp: tracked_def stopElapsedTimer_def poll_loops_def elapsed_loops_def loops_clear)
qed

lemma tracked_startPolling: "tracked s \<Longrightarrow> tracked (startPolling s)"
  by (cases "pollingTimer s")
     (auto simp: tracked_def startPolling_def poll_loops_def elapsed_loops_def)

lemma tracked_startElapsedTimer: "tracked s \<Longrightarrow> tracked (startElapsedTimer s)"
  by (cases "elapsedTimer s")
     (auto simp: tracked_def startElapsedTimer_def poll_loops_def elapsed_loops_def)

lemma tracked_poll_got_task: "tracked s \<Longrightarrow> tracked (poll_got_task task s)"
  by (cases "currentTask s")
     (simp_all add: tracked_def poll_got_task_def poll_loops_def elapsed_loops_def)

lemma tracked_steps_update: "tracked s \<Longrightarrow> tracked (s\<lparr> steps := xs \<rparr>)"
  by (simp add: tracked_def poll_loops_def elapsed_loops_def)

lemma tracked_poll_got_steps: "tracked s \<Longrightarrow> tracked (poll_got_steps task fetched s)"
  by (cases fetched)
     (simp_all add: poll_got_steps_def Let_def tracked_steps_update tracked_stopPolling
        tracked_stopElapsedTimer)

lemma tracked_step: "tracked s \<Longrightarrow> tracked (preview_step s e)"
  by (cases e)
     (simp_all add: tracked_startPolling tracked_stopPolling tracked_startElapsedTimer
        tracked_stopElapsedTimer tracked_poll_got_task tracked_poll_got_steps poll_enter_def)

lemma tracked_run: "tracked s \<Longrightarrow> tracked (preview_run s es)"
proof (induction es arbitrary: s)
  case Nil
  then show ?case by (simp add: preview_run_def)
next
  case (Cons e es)
  from Cons.IH[OF tracked_step[OF Cons.prems, of e]] show ?case
    by (simp add: preview_run_def)
qed

lemma tracked_init: "tracked preview_init"
  by (simp add: tracked_def preview_init_def poll_loops_def elapsed_loops_def)

subsection \<open>The step list under polling\<close>

lemma stop_keeps_steps [simp]:
  "steps (stopPolling s) = steps s" "steps (stopElapsedTimer s) = steps s"
  "steps (startPolling s) = steps s" "steps (startElapsedTimer s) = steps s"
  "steps (poll_got_task task s) = steps s" "steps (poll_enter s) = steps s"
  by (simp_all add: stopPolling_def stopElapsedTimer_def startPolling_def
      startElapsedTimer_def poll_got_task_def poll_enter_def split: option.splits)

lemma flag_new_length [simp]: "length (flag_new n fs) = length fs"
  by (simp add: flag_new_def)

lemma flag_new_body [simp]: "map body (flag_new n fs) = map body fs"
proof -
  have "map body (flag_new n fs) = map body (take n fs) @ map body (drop n fs)"
    by (simp add: flag_new_def comp_def)
  also have "\<dots> = map body (take n fs @ drop n fs)" by (simp only: map_append)
  also have "\<dots> = map body fs" by (simp only: append_take_drop_id)
  finally show ?thesis .
qed

lemma got_steps_result:
  "steps (poll_got_steps task fetched s) =
     (case fetched of
        None \<Rightarrow> steps s
      | Some fs \<Rightarrow> if length (steps s) < length fs then flag_new (length (steps s)) fs
                   else steps s)"
  by (simp add: poll_got_steps_def Let_def split: option.splits)

lemma got_steps_mono: "length (steps s) \<le> length (steps (poll_got_steps task fetched s))"
  by (simp add: got_steps_result split: option.splits)

lemma step_mono: "length (steps s) \<le> length (steps (preview_step s e))"
  by (cases e) (simp_all add: got_steps_mono)

lemma run_mono: "length (steps s) \<le> length (steps (preview_run s es))"
proof (induction es arbitrary: s)
  case Nil
  then show ?case by (simp add: preview_run_def)
next
  case (Cons e es)
  have "length (steps s) \<le> length (steps (preview_step s e))" by (rule step_mono)
  also have "\<dots> \<le> length (steps (preview_run (preview_step s e) es))" by (rule Cons.IH)
  finally show ?case by (simp add: preview_run_def)
qed

lemma tick_mono: "length (steps s) \<le> length (steps (poll_tick gt gs s))"
proof -
  have "length (steps s) \<le> length (steps (poll_got_steps task fetched (poll_got_task task s)))"
    for task fetched
    using got_steps_mono[of "poll_got_task task s" task fetched] by simp
  then show ?thesis
    by (simp add: poll_tick_def Let_def split: api.splits)
qed

subsection \<open>The claims about the live task preview\<close>

text \<open>
  C3. The piece of the poll callback that receives the fetched step list, in any
  state: when the fetched list is strictly longer than the local one, the local list
  becomes the fetched list, which by then carries the \<open>isNew\<close> flag on the entries
  beyond the old length, so it has the fetched list's length and the fetched steps
  in the fetched order; when it is as long or shorter, or when the response holds no
  list, the local list is left as it is. Hence the length of the local list does not
  decrease over a poll tick, nor over any sequence of calls and callback pieces.
\<close>

theorem poll_replaces_only_when_longer:
  "(length (steps s) < length fetched \<longrightarrow>
      steps (poll_got_steps task (Some fetched) s) = flag_new (length (steps s)) fetched \<and>
      map body (steps (poll_got_steps task (Some fetched) s)) = map body fetched \<and>
      length (steps (poll_got_steps task (Some fetched) s)) = length fetched) \<and>
   (length fetched \<le> length (steps s) \<longrightarrow>
      steps (poll_got_steps task (Some fetched) s) = steps s) \<and>
   steps (poll_got_steps task None s) = steps s \<and>
   length (steps s) \<le> length (steps (poll_tick got_task got_steps s)) \<and>
   length (steps s) \<le> length (steps (preview_run s es))"
proof -
  have a: "length (steps s) < length fetched \<longrightarrow>
      steps (poll_got_steps task (Some fetched) s) = flag_new (length (steps s)) fetched \<and>
      map body (steps (poll_got_steps task (Some fetched) s)) = map body fetched \<and>
      length (steps (poll_got_steps task (Some fetched) s)) = length fetched"
    by (simp add: got_steps_result)
  have b: "length fetched \<le> length (steps s) \<longrightarrow>
      steps (poll_got_steps task (Some fetched) s) = steps s"
    by (simp add: got_steps_result)
  have c: "steps (poll_got_steps task None s) = steps s"
    by (simp add: got_steps_result)
  from a b c tick_mono[of s got_task got_steps] run_mono[of s es] show ?thesis by blast
qed

text \<open>
  C3, instances: the preview holds one step. A poll that fetches two steps replaces
  the list and flags the second step; a poll that fetches one step, and a poll that
  fetches none, leave the list alone.
\<close>

theorem poll_replaces_only_when_longer_witness:
  "length (steps ex_preview) < length [ex_step 1, ex_step 2] \<and>
   steps (poll_got_steps ex_task (Some [ex_step 1, ex_step 2]) ex_preview)
     = [ex_step 1, (ex_step 2)\<lparr> isNew := Some True \<rparr>] \<and>
   length [ex_step 7] \<le> length (steps ex_preview) \<and>
   steps (poll_got_steps ex_task (Some [ex_step 7]) ex_preview) = [ex_step 1] \<and>
   steps (poll_got_steps ex_task (Some []) ex_preview) = [ex_step 1]"
proof -
  have h1: "length (steps ex_preview) < length [ex_step 1, ex_step 2]"
    by (simp add: ex_preview_def)
  have h2: "length [ex_step 7] \<le> length (steps ex_preview)"
    by (simp add: ex_preview_def)
  have h3: "length ([]::nat step list) \<le> length (steps ex_preview)"
    by simp
  have f: "flag_new (length (steps ex_preview)) [ex_step 1, ex_step 2]
      = [ex_step 1, (ex_step 2)\<lparr> isNew := Some True \<rparr>]"
    by (simp add: flag_new_def ex_preview_def)
  have s: "steps ex_preview = [ex_step 1]" by (simp add: ex_preview_def)
  from poll_replaces_only_when_longer[of ex_preview "[ex_step 1, ex_step 2]" ex_task] h1 f
  have r1: "steps (poll_got_steps ex_task (Some [ex_step 1, ex_step 2]) ex_preview)
      = [ex_step 1, (ex_step 2)\<lparr> isNew := Some True \<rparr>]" by simp
  from poll_replaces_only_when_longer[of ex_preview "[ex_step 7]" ex_task] h2 s
  have r2: "steps (poll_got_steps ex_task (Some [ex_step 7]) ex_preview) = [ex_step 1]"
    by simp
  from poll_replaces_only_when_longer[of ex_preview "[]" ex_task] h3 s
  have r3: "steps (poll_got_steps ex_task (Some []) ex_preview) = [ex_step 1]"
    by simp
  from h1 h2 r1 r2 r3 show ?thesis by blast
qed

text \<open>
  C10. \<open>startPolling\<close> changes nothing when \<open>pollingTimer\<close> holds a handle, and
  \<open>stopPolling\<close> leaves \<open>pollingTimer\<close> empty. After any sequence of calls of
  \<open>startPolling\<close>, \<open>stopPolling\<close>, \<open>startElapsedTimer\<close> and \<open>stopElapsedTimer\<close> and of
  pieces of poll callbacks, from the component's initial state, the poll loops that
  run are exactly the one \<open>pollingTimer\<close> holds, if it holds one: never two. A call
  of \<open>stopPolling\<close> then leaves no poll loop running.
\<close>

theorem single_poll_loop:
  "(pollingTimer (s::'a preview) \<noteq> None \<longrightarrow> startPolling s = s) \<and>
   pollingTimer (stopPolling s) = None \<and>
   poll_loops (preview_run (preview_init::'a preview) es)
     = (case pollingTimer (preview_run (preview_init::'a preview) es) of
          None \<Rightarrow> [] | Some t \<Rightarrow> [t]) \<and>
   length (poll_loops (preview_run (preview_init::'a preview) es)) \<le> 1 \<and>
   poll_loops (stopPolling (preview_run (preview_init::'a preview) es)) = []"
proof -
  let ?p = "preview_run (preview_init::'a preview) es"
  have t: "tracked ?p" by (rule tracked_run[OF tracked_init])
  then have one: "poll_loops ?p = (case pollingTimer ?p of None \<Rightarrow> [] | Some t \<Rightarrow> [t])"
    by (simp add: tracked_def)
  then have le: "length (poll_loops ?p) \<le> 1" by (simp split: option.splits)
  have stop: "pollingTimer (stopPolling u) = None" for u :: "'a preview"
    by (simp add: stopPolling_def split: option.splits)
  from tracked_stopPolling[OF t] have none: "poll_loops (stopPolling ?p) = []"
    by (simp add: tracked_def stop)
  have noop: "pollingTimer s \<noteq> None \<longrightarrow> startPolling s = s"
    by (simp add: startPolling_def)
  from noop stop[of s] one le none show ?thesis by blast
qed

text \<open>
  C10, an instance: polling is started three times with other calls between; one
  poll loop runs, the one \<open>pollingTimer\<close> holds, and starting again changes nothing.
\<close>

theorem single_poll_loop_witness:
  "pollingTimer (preview_run (preview_init::nat preview)
      [StartPolling, StartPolling, StartElapsedTimer, StopPolling, StartPolling]) \<noteq> None \<and>
   startPolling (preview_run (preview_init::nat preview)
      [StartPolling, StartPolling, StartElapsedTimer, StopPolling, StartPolling])
     = preview_run (preview_init::nat preview)
      [StartPolling, StartPolling, StartElapsedTimer, StopPolling, StartPolling] \<and>
   poll_loops (preview_run (preview_init::nat preview)
      [StartPolling, StartPolling, StartElapsedTimer, StopPolling, StartPolling]) = [3] \<and>
   pv_intervals (preview_run (preview_init::nat preview)
      [StartPolling, StartPolling, StartElapsedTimer, StopPolling, StartPolling])
     = [(2, ElapsedCb), (3, PollCb)]"
proof -
  have e: "pollingTimer (preview_run (preview_init::nat preview)
      [StartPolling, StartPolling, StartElapsedTimer, StopPolling, StartPolling]) = Some 3 \<and>
    pv_intervals (preview_run (preview_init::nat preview)
      [StartPolling, StartPolling, StartElapsedTimer, StopPolling, StartPolling])
     = [(2, ElapsedCb), (3, PollCb)]"
    by (simp add: preview_run_def preview_init_def startPolling_def stopPolling_def
        startElapsedTimer_def clearInterval_def)
  then have h: "pollingTimer (preview_run (preview_init::nat preview)
      [StartPolling, StartPolling, StartElapsedTimer, StopPolling, StartPolling]) \<noteq> None"
    by simp
  note t = single_poll_loop[of "preview_run (preview_init::nat preview)
      [StartPolling, StartPolling, StartElapsedTimer, StopPolling, StartPolling]"
      "[StartPolling, StartPolling, StartElapsedTimer, StopPolling, StartPolling]"]
  from t h have a: "startPolling (preview_run (preview_init::nat preview)
      [StartPolling, StartPolling, StartElapsedTimer, StopPolling, StartPolling])
     = preview_run (preview_init::nat preview)
      [StartPolling, StartPolling, StartElapsedTimer, StopPolling, StartPolling]"
    by blast
  from t e have b: "poll_loops (preview_run (preview_init::nat preview)
      [StartPolling, StartPolling, StartElapsedTimer, StopPolling, StartPolling]) = [3]"
    by simp
  from h a b e show ?thesis by blast
qed

end
